theory Spec2Isabelle
  imports Main "HOL-Library.Monad_Syntax"
begin

section \<open>Conway's Game of Life with boundary tracking: the sparse evolution engine\<close>

text \<open>
  The notebook \<^verbatim>\<open>Entertainment/ConwaysGameOfLife.ipynb\<close> keeps the living cells in a
  Python \<^verbatim>\<open>set\<close> of coordinate pairs and, beside it, the set of dead cells that touch
  a living one. The functions \<^verbatim>\<open>PBC\<close>, \<^verbatim>\<open>contour\<close>, \<^verbatim>\<open>boundary\<close>,
  \<^verbatim>\<open>contour_alive_sum\<close> and \<^verbatim>\<open>evolution\<close> are embedded below.

  \<^item> A cell is a pair of Python integers, hence a pair of \<^typ>\<open>int\<close>.
  \<^item> The module constants \<^verbatim>\<open>GRID_WIDTH\<close> and \<^verbatim>\<open>GRID_HEIGHT\<close> (both 100 in the
    notebook) are the parameters \<open>W\<close> and \<open>H\<close> of every function.
  \<^item> Python's \<^verbatim>\<open>%\<close> on integers is floor modulo, which is \<open>mod\<close> on \<^typ>\<open>int\<close>;
    it raises \<^verbatim>\<open>ZeroDivisionError\<close> for a zero divisor. That is the only exception
    the engine can raise, and it is the value \<open>None\<close> of every function below.
  \<^item> A Python set is a finite set. A \<^verbatim>\<open>for\<close> loop over a set visits its members in
    an order the language does not fix; it is \<^const>\<open>Finite_Set.fold\<close> of the loop body.
\<close>

type_synonym cell = "int \<times> int"

subsection \<open>Toroidal coordinate mapping\<close>

definition py_mod :: "int \<Rightarrow> int \<Rightarrow> int option" where
  "py_mod a b = (if b = 0 then None else Some (a mod b))"

definition PBC :: "int \<Rightarrow> int \<Rightarrow> int \<Rightarrow> int \<Rightarrow> cell option" where
  "PBC W H coord_0 coord_1 = do {
     c0 \<leftarrow> (if coord_0 < 0 \<or> coord_0 \<ge> W then py_mod coord_0 W else Some coord_0);
     c1 \<leftarrow> (if coord_1 < 0 \<or> coord_1 \<ge> H then py_mod coord_1 H else Some coord_1);
     Some (c0, c1)
   }"

subsection \<open>Contour of a cell\<close>

definition contour :: "int \<Rightarrow> int \<Rightarrow> cell \<Rightarrow> cell set option" where
  "contour W H coord = do {
     p1 \<leftarrow> PBC W H (fst coord - 1) (snd coord + 1);
     p2 \<leftarrow> PBC W H (fst coord) (snd coord + 1);
     p3 \<leftarrow> PBC W H (fst coord + 1) (snd coord + 1);
     p4 \<leftarrow> PBC W H (fst coord + 1) (snd coord);
     p5 \<leftarrow> PBC W H (fst coord + 1) (snd coord - 1);
     p6 \<leftarrow> PBC W H (fst coord) (snd coord - 1);
     p7 \<leftarrow> PBC W H (fst coord - 1) (snd coord - 1);
     p8 \<leftarrow> PBC W H (fst coord - 1) (snd coord);
     Some (insert p8 (insert p7 (insert p6 (insert p5
            (insert p4 (insert p3 (insert p2 (insert p1 {}))))))))
   }"

subsection \<open>Boundary of the alive set\<close>

definition boundary_body :: "int \<Rightarrow> int \<Rightarrow> cell \<Rightarrow> cell set option \<Rightarrow> cell set option" where
  "boundary_body W H cell_coord acc = do {
     boundary_set \<leftarrow> acc;
     k \<leftarrow> contour W H cell_coord;
     Some (boundary_set \<union> k)
   }"

definition boundary :: "int \<Rightarrow> int \<Rightarrow> cell set \<Rightarrow> cell set option" where
  "boundary W H alive_set = do {
     boundary_set \<leftarrow> Finite_Set.fold (boundary_body W H) (Some {}) alive_set;
     Some (boundary_set - alive_set)
   }"

subsection \<open>Number of living cells in a contour\<close>

definition count_body :: "cell set \<Rightarrow> cell \<Rightarrow> int \<Rightarrow> int" where
  "count_body alive_set c count = (if c \<in> alive_set then count + 1 else count)"

definition contour_alive_sum :: "int \<Rightarrow> int \<Rightarrow> cell \<Rightarrow> cell set \<Rightarrow> int option" where
  "contour_alive_sum W H coord alive_set = do {
     k \<leftarrow> contour W H coord;
     Some (Finite_Set.fold (count_body alive_set) 0 k)
   }"

subsection \<open>Evolution step\<close>

definition survive_body :: "int \<Rightarrow> int \<Rightarrow> cell set \<Rightarrow> cell \<Rightarrow> cell set option \<Rightarrow> cell set option" where
  "survive_body W H alive_set cell acc = do {
     alive_set_next \<leftarrow> acc;
     n \<leftarrow> contour_alive_sum W H cell alive_set;
     Some (if 2 \<le> n \<and> n \<le> 3 then insert cell alive_set_next else alive_set_next)
   }"

definition birth_body :: "int \<Rightarrow> int \<Rightarrow> cell set \<Rightarrow> cell \<Rightarrow> cell set option \<Rightarrow> cell set option" where
  "birth_body W H alive_set void acc = do {
     alive_set_next \<leftarrow> acc;
     n \<leftarrow> contour_alive_sum W H void alive_set;
     Some (if n = 3 then insert void alive_set_next else alive_set_next)
   }"

definition evolution :: "int \<Rightarrow> int \<Rightarrow> cell set \<Rightarrow> cell set \<Rightarrow> cell set option" where
  "evolution W H alive_set boundary_set =
     Finite_Set.fold (birth_body W H alive_set)
       (Finite_Set.fold (survive_body W H alive_set) (Some {}) alive_set)
       boundary_set"

text \<open>
  One pass of the driver's loop (the two assignments after the pause check in
  \<^verbatim>\<open>main\<close>): the alive set is replaced by its evolution, then the boundary is
  recomputed from the new alive set.
\<close>

definition tick :: "int \<Rightarrow> int \<Rightarrow> cell set \<times> cell set \<Rightarrow> (cell set \<times> cell set) option" where
  "tick W H st = do {
     alive_set \<leftarrow> evolution W H (fst st) (snd st);
     boundary_set \<leftarrow> boundary W H alive_set;
     Some (alive_set, boundary_set)
   }"

subsection \<open>Reference notions\<close>

text \<open>The grid \<open>[0, W) \<times> [0, H)\<close>.\<close>

definition grid :: "int \<Rightarrow> int \<Rightarrow> cell set" where
  "grid W H = {0..<W} \<times> {0..<H}"

text \<open>
  The eight offsets of the Moore neighbourhood, and the toroidal neighbours of a cell
  as the specification words them: the eight cells around it in the 3 by 3 block, the
  cell itself excluded, each reduced modulo the grid dimensions.
\<close>

definition moore_offsets :: "cell set" where
  "moore_offsets = {-1, 0, 1} \<times> {-1, 0, 1} - {(0, 0)}"

definition toroidal_neighbours :: "int \<Rightarrow> int \<Rightarrow> cell \<Rightarrow> cell set" where
  "toroidal_neighbours W H c =
     (\<lambda>d. ((fst c + fst d) mod W, (snd c + snd d) mod H)) ` moore_offsets"

text \<open>
  The dense reference step: the rule of the game evaluated at every cell of the grid,
  with the number of living toroidal neighbours of the cell.
\<close>

definition alive_neighbours :: "int \<Rightarrow> int \<Rightarrow> cell set \<Rightarrow> cell \<Rightarrow> nat" where
  "alive_neighbours W H A c = card (toroidal_neighbours W H c \<inter> A)"

definition dense_step :: "int \<Rightarrow> int \<Rightarrow> cell set \<Rightarrow> cell set" where
  "dense_step W H A =
     {c \<in> grid W H.
        (c \<in> A \<and> (alive_neighbours W H A c = 2 \<or> alive_neighbours W H A c = 3)) \<or>
        (c \<notin> A \<and> alive_neighbours W H A c = 3)}"

section \<open>Auxiliary facts\<close>

subsection \<open>The functions on a grid of positive dimensions\<close>

text \<open>
  With positive dimensions no division by zero occurs, and each function returns the
  value its loop accumulates, whatever the order in which the set is visited.
\<close>

lemma PBC_pos: "0 < W \<Longrightarrow> 0 < H \<Longrightarrow> PBC W H x y = Some (x mod W, y mod H)"
  by (simp add: PBC_def py_mod_def)

lemma PBC_zero_width: "PBC 0 H x y = None"
  by (simp add: PBC_def py_mod_def)

lemma PBC_zero_height: "PBC W 0 x y = None"
  by (simp add: PBC_def py_mod_def split: Option.bind_split)

lemma moore_offsets_eq:
  "moore_offsets = {(-1, 1), (0, 1), (1, 1), (1, 0), (1, -1), (0, -1), (-1, -1), (-1, 0)}"
  unfolding moore_offsets_def by auto

lemma contour_pos:
  assumes "0 < W" "0 < H"
  shows "contour W H c = Some (toroidal_neighbours W H c)"
  using assms
  by (auto simp add: contour_def PBC_pos toroidal_neighbours_def moore_offsets_eq)

lemma fold_insert_commute:
  assumes "comp_fun_commute f" "finite A" "x \<notin> A"
  shows "Finite_Set.fold f z (insert x A) = f x (Finite_Set.fold f z A)"
  using comp_fun_commute_on.fold_insert [where S = UNIV and f = f and A = A and x = x and z = z] assms
  by (simp add: comp_fun_commute_def')

lemma boundary_body_commute: "comp_fun_commute (boundary_body W H)"
  unfolding comp_fun_commute_def boundary_body_def
  by (auto simp: fun_eq_iff Un_ac split: Option.bind_splits)

lemma fold_boundary_body:
  assumes "0 < W" "0 < H" "finite A"
  shows "Finite_Set.fold (boundary_body W H) (Some {}) A = Some (\<Union>c\<in>A. toroidal_neighbours W H c)"
  using assms(3)
proof (induction A rule: finite_induct)
  case empty
  show ?case by simp
next
  case (insert a A)
  have "Finite_Set.fold (boundary_body W H) (Some {}) (insert a A)
        = boundary_body W H a (Finite_Set.fold (boundary_body W H) (Some {}) A)"
    using insert.hyps by (simp add: fold_insert_commute [OF boundary_body_commute])
  also have "\<dots> = Some ((\<Union>c\<in>A. toroidal_neighbours W H c) \<union> toroidal_neighbours W H a)"
    by (simp add: insert.IH boundary_body_def contour_pos assms)
  finally show ?case by (simp add: Un_commute)
qed

lemma boundary_pos:
  assumes "0 < W" "0 < H" "finite A"
  shows "boundary W H A = Some ((\<Union>c\<in>A. toroidal_neighbours W H c) - A)"
  by (simp add: boundary_def fold_boundary_body assms)

lemma count_body_commute: "comp_fun_commute (count_body A)"
  unfolding comp_fun_commute_def count_body_def by (auto simp: fun_eq_iff)

lemma fold_count_body:
  assumes "finite K"
  shows "Finite_Set.fold (count_body A) 0 K = int (card (K \<inter> A))"
  using assms
proof (induction K rule: finite_induct)
  case empty
  show ?case by simp
next
  case (insert k K)
  have "Finite_Set.fold (count_body A) 0 (insert k K)
        = count_body A k (Finite_Set.fold (count_body A) 0 K)"
    using insert.hyps by (simp add: fold_insert_commute [OF count_body_commute])
  also have "\<dots> = int (card (insert k K \<inter> A))"
    using insert.hyps by (simp add: insert.IH count_body_def)
  finally show ?case .
qed

lemma finite_toroidal_neighbours: "finite (toroidal_neighbours W H c)"
  by (simp add: toroidal_neighbours_def moore_offsets_eq)

lemma contour_alive_sum_pos:
  assumes "0 < W" "0 < H"
  shows "contour_alive_sum W H c A = Some (int (alive_neighbours W H A c))"
  by (simp add: contour_alive_sum_def contour_pos assms fold_count_body
      finite_toroidal_neighbours alive_neighbours_def)

lemma survive_body_commute: "comp_fun_commute (survive_body W H A)"
  unfolding comp_fun_commute_def survive_body_def
  by (auto simp: fun_eq_iff insert_commute split: Option.bind_splits)

lemma birth_body_commute: "comp_fun_commute (birth_body W H A)"
  unfolding comp_fun_commute_def birth_body_def
  by (auto simp: fun_eq_iff insert_commute split: Option.bind_splits)

lemma fold_survive_body:
  assumes "0 < W" "0 < H" "finite S"
  shows "Finite_Set.fold (survive_body W H A) (Some N) S =
         Some (N \<union> {c \<in> S. alive_neighbours W H A c = 2 \<or> alive_neighbours W H A c = 3})"
  using assms(3)
proof (induction S rule: finite_induct)
  case empty
  show ?case by simp
next
  case (insert s S)
  have "Finite_Set.fold (survive_body W H A) (Some N) (insert s S)
        = survive_body W H A s (Finite_Set.fold (survive_body W H A) (Some N) S)"
    using insert.hyps by (simp add: fold_insert_commute [OF survive_body_commute])
  also have "\<dots> = Some (N \<union> {c \<in> insert s S.
      alive_neighbours W H A c = 2 \<or> alive_neighbours W H A c = 3})"
    by (auto simp add: insert.IH survive_body_def contour_alive_sum_pos assms)
  finally show ?case .
qed

lemma fold_birth_body:
  assumes "0 < W" "0 < H" "finite S"
  shows "Finite_Set.fold (birth_body W H A) (Some N) S =
         Some (N \<union> {c \<in> S. alive_neighbours W H A c = 3})"
  using assms(3)
proof (induction S rule: finite_induct)
  case empty
  show ?case by simp
next
  case (insert s S)
  have "Finite_Set.fold (birth_body W H A) (Some N) (insert s S)
        = birth_body W H A s (Finite_Set.fold (birth_body W H A) (Some N) S)"
    using insert.hyps by (simp add: fold_insert_commute [OF birth_body_commute])
  also have "\<dots> = Some (N \<union> {c \<in> insert s S. alive_neighbours W H A c = 3})"
    by (auto simp add: insert.IH birth_body_def contour_alive_sum_pos assms)
  finally show ?case .
qed

lemma evolution_pos:
  assumes "0 < W" "0 < H" "finite A" "finite B"
  shows "evolution W H A B =
         Some ({c \<in> A. alive_neighbours W H A c = 2 \<or> alive_neighbours W H A c = 3}
               \<union> {c \<in> B. alive_neighbours W H A c = 3})"
  by (simp add: evolution_def fold_survive_body fold_birth_body assms)

subsection \<open>Executable equations\<close>

text \<open>
  On a set given by the list of its members, each loop is the list fold of its body over
  the members without repetition, and the count is the size of an intersection. These
  equations let the functions be evaluated on concrete sets.
\<close>

lemma fold_set_commute:
  assumes "comp_fun_commute f"
  shows "Finite_Set.fold f z (set xs) = fold f (remdups xs) z"
  using comp_fun_commute_on.fold_set_fold_remdups [where S = UNIV and f = f and xs = xs and y = z] assms
  by (simp add: comp_fun_commute_def')

lemma finite_contour: "contour W H c = Some k \<Longrightarrow> finite k"
  by (auto simp: contour_def split: Option.bind_splits)

lemma boundary_code [code]:
  "boundary W H (set xs) = do {
     boundary_set \<leftarrow> fold (boundary_body W H) (remdups xs) (Some {});
     Some (boundary_set - set xs)
   }"
  by (simp add: boundary_def fold_set_commute [OF boundary_body_commute])

lemma contour_alive_sum_code [code]:
  "contour_alive_sum W H coord alive_set = do {
     k \<leftarrow> contour W H coord;
     Some (int (card (k \<inter> alive_set)))
   }"
  by (cases "contour W H coord")
    (simp_all add: contour_alive_sum_def fold_count_body finite_contour)

lemma evolution_code [code]:
  "evolution W H (set xs) (set ys) =
     fold (birth_body W H (set xs)) (remdups ys)
       (fold (survive_body W H (set xs)) (remdups xs) (Some {}))"
  by (simp add: evolution_def fold_set_commute [OF birth_body_commute]
      fold_set_commute [OF survive_body_commute])

subsection \<open>Toroidal neighbourhoods\<close>

lemma moore_offsets_iff:
  "d \<in> moore_offsets \<longleftrightarrow> fst d \<in> {-1, 0, 1} \<and> snd d \<in> {-1, 0, 1} \<and> d \<noteq> (0, 0)"
proof -
  have "d \<in> moore_offsets \<longleftrightarrow> d \<in> {-1, 0, 1} \<times> {-1, 0, 1} \<and> d \<notin> {(0, 0)}"
    by (simp only: moore_offsets_def Diff_iff)
  also have "\<dots> \<longleftrightarrow> fst d \<in> {-1, 0, 1} \<and> snd d \<in> {-1, 0, 1} \<and> d \<noteq> (0, 0)"
    by (simp only: mem_Times_iff singleton_iff conj_assoc)
  finally show ?thesis .
qed

lemma toroidal_neighbours_grid:
  assumes "0 < W" "0 < H"
  shows "toroidal_neighbours W H c \<subseteq> grid W H"
proof
  fix a assume "a \<in> toroidal_neighbours W H c"
  then obtain d where "a = ((fst c + fst d) mod W, (snd c + snd d) mod H)"
    unfolding toroidal_neighbours_def by blast
  with assms show "a \<in> grid W H" by (simp add: grid_def)
qed

lemma card_moore_offsets: "card moore_offsets = 8"
  by (simp add: moore_offsets_eq)

lemma card_toroidal_neighbours_le: "card (toroidal_neighbours W H c) \<le> 8"
proof -
  have "card (toroidal_neighbours W H c) \<le> card moore_offsets"
    unfolding toroidal_neighbours_def
    by (rule card_image_le) (simp add: moore_offsets_eq)
  then show ?thesis by (simp add: card_moore_offsets)
qed

lemma offset_mod_inj:
  fixes W x d e :: int
  assumes "3 \<le> W" "d \<in> {-1, 0, 1}" "e \<in> {-1, 0, 1}" "(x + d) mod W = (x + e) mod W"
  shows "d = e"
proof (rule ccontr)
  assume ne: "d \<noteq> e"
  from assms(4) have "W dvd (x + d) - (x + e)" by (simp add: mod_eq_dvd_iff)
  then have dv: "W dvd d - e" by simp
  from ne have "d - e \<noteq> 0" by simp
  with dv have "\<bar>W\<bar> \<le> \<bar>d - e\<bar>" by (rule dvd_imp_le_int [rotated])
  moreover from assms(2,3) have "\<bar>d - e\<bar> \<le> 2" by auto
  ultimately show False using assms(1) by simp
qed


lemma card_toroidal_neighbours_eq:
  assumes "3 \<le> W" "3 \<le> H"
  shows "card (toroidal_neighbours W H c) = 8"
proof -
  have "inj_on (\<lambda>d. ((fst c + fst d) mod W, (snd c + snd d) mod H)) moore_offsets"
  proof (rule inj_onI)
    fix d e assume d: "d \<in> moore_offsets" and e: "e \<in> moore_offsets"
      and eq: "((fst c + fst d) mod W, (snd c + snd d) mod H)
             = ((fst c + fst e) mod W, (snd c + snd e) mod H)"
    from d [unfolded moore_offsets_iff] e [unfolded moore_offsets_iff]
    have m: "fst d \<in> {-1, 0, 1}" "fst e \<in> {-1, 0, 1}"
      "snd d \<in> {-1, 0, 1}" "snd e \<in> {-1, 0, 1}"
      by blast+
    from eq have x: "(fst c + fst d) mod W = (fst c + fst e) mod W"
      and y: "(snd c + snd d) mod H = (snd c + snd e) mod H" by simp_all
    have "fst d = fst e" using assms(1) m(1,2) x by (rule offset_mod_inj)
    moreover have "snd d = snd e" using assms(2) m(3,4) y by (rule offset_mod_inj)
    ultimately show "d = e" by (simp add: prod_eq_iff)
  qed
  then have "card (toroidal_neighbours W H c) = card moore_offsets"
    unfolding toroidal_neighbours_def by (rule card_image)
  then show ?thesis by (simp add: card_moore_offsets)
qed

lemma unit_offset_dvd:
  fixes W d :: int
  assumes "0 < W" "d \<in> {-1, 0, 1}" "W dvd d" "d \<noteq> 0"
  shows "W = 1"
proof -
  from assms(2,4) have "d = 1 \<or> d = -1" by auto
  with assms(3) have "W dvd 1" by auto
  with assms(1) show ?thesis by simp
qed

lemma self_neighbour_iff:
  assumes "0 < W" "0 < H"
  shows "c \<in> toroidal_neighbours W H c \<longleftrightarrow> c \<in> grid W H \<and> (W = 1 \<or> H = 1)"
proof
  assume cn: "c \<in> toroidal_neighbours W H c"
  then obtain d where d: "d \<in> moore_offsets"
    and c: "c = ((fst c + fst d) mod W, (snd c + snd d) mod H)"
    unfolding toroidal_neighbours_def by blast
  have g: "c \<in> grid W H"
    using toroidal_neighbours_grid [OF assms] cn by blast
  from c have "fst c = (fst c + fst d) mod W" "snd c = (snd c + snd d) mod H"
    by (simp_all add: prod_eq_iff)
  then have "fst c mod W = (fst c + fst d) mod W" "snd c mod H = (snd c + snd d) mod H"
    by (metis mod_mod_trivial)+
  then have "W dvd fst c - (fst c + fst d)" "H dvd snd c - (snd c + snd d)"
    by (simp_all only: mod_eq_dvd_iff)
  then have dv: "W dvd fst d" "H dvd snd d" by simp_all
  from d [unfolded moore_offsets_iff]
  have m: "fst d \<in> {-1, 0, 1}" "snd d \<in> {-1, 0, 1}" "d \<noteq> (0, 0)"
    by blast+
  from m(3) have "fst d \<noteq> 0 \<or> snd d \<noteq> 0" by (simp add: prod_eq_iff)
  then have "W = 1 \<or> H = 1"
    using unit_offset_dvd [OF assms(1) m(1) dv(1)] unit_offset_dvd [OF assms(2) m(2) dv(2)]
    by blast
  with g show "c \<in> grid W H \<and> (W = 1 \<or> H = 1)" by simp
next
  assume a: "c \<in> grid W H \<and> (W = 1 \<or> H = 1)"
  then have r: "0 \<le> fst c" "fst c < W" "0 \<le> snd c" "snd c < H"
    by (auto simp: grid_def)
  from a show "c \<in> toroidal_neighbours W H c"
  proof (elim conjE disjE)
    assume "W = 1"
    with r have "c = ((fst c + fst (1::int, 0::int)) mod W, (snd c + snd (1::int, 0::int)) mod H)"
      by (simp add: prod_eq_iff)
    moreover have "(1, 0) \<in> moore_offsets" by (simp add: moore_offsets_eq)
    ultimately show ?thesis unfolding toroidal_neighbours_def by (rule image_eqI)
  next
    assume "H = 1"
    with r have "c = ((fst c + fst (0::int, 1::int)) mod W, (snd c + snd (0::int, 1::int)) mod H)"
      by (simp add: prod_eq_iff)
    moreover have "(0, 1) \<in> moore_offsets" by (simp add: moore_offsets_eq)
    ultimately show ?thesis unfolding toroidal_neighbours_def by (rule image_eqI)
  qed
qed


lemma neighbour_sym:
  assumes "0 < W" "0 < H" "c \<in> grid W H" "a \<in> toroidal_neighbours W H c"
  shows "c \<in> toroidal_neighbours W H a"
proof -
  from assms(4) obtain d where d: "d \<in> moore_offsets"
    and a: "a = ((fst c + fst d) mod W, (snd c + snd d) mod H)"
    unfolding toroidal_neighbours_def by blast
  from assms(3) have r: "fst c mod W = fst c" "snd c mod H = snd c"
    by (auto simp: grid_def)
  have "(fst a + - fst d) mod W = fst c" "(snd a + - snd d) mod H = snd c"
    using r by (simp_all add: a mod_diff_left_eq)
  then have "c = ((fst a + fst (- fst d, - snd d)) mod W, (snd a + snd (- fst d, - snd d)) mod H)"
    by (simp add: prod_eq_iff)
  moreover from d [unfolded moore_offsets_iff] have "(- fst d, - snd d) \<in> moore_offsets"
    unfolding moore_offsets_iff by (auto simp: prod_eq_iff)
  ultimately show ?thesis unfolding toroidal_neighbours_def by (rule image_eqI)
qed

lemma finite_grid: "finite (grid W H)"
  by (simp add: grid_def)

lemma no_neighbours_outside_boundary:
  assumes "0 < W" "0 < H" "c \<in> grid W H"
    "c \<notin> (\<Union>a\<in>A. toroidal_neighbours W H a)"
  shows "alive_neighbours W H A c = 0"
proof -
  have "toroidal_neighbours W H c \<inter> A = {}"
  proof (rule ccontr)
    assume "toroidal_neighbours W H c \<inter> A \<noteq> {}"
    then obtain a where a: "a \<in> toroidal_neighbours W H c" "a \<in> A" by blast
    from neighbour_sym [OF assms(1,2,3) a(1)] a(2) assms(4) show False by blast
  qed
  then show ?thesis by (simp add: alive_neighbours_def)
qed

lemma evolution_boundary_dense:
  assumes "0 < W" "0 < H" "A \<subseteq> grid W H"
  shows "evolution W H A ((\<Union>a\<in>A. toroidal_neighbours W H a) - A) = Some (dense_step W H A)"
proof -
  let ?B = "(\<Union>a\<in>A. toroidal_neighbours W H a) - A"
  have fA: "finite A" using assms(3) finite_grid by (rule finite_subset)
  have sub: "?B \<subseteq> grid W H" using toroidal_neighbours_grid [OF assms(1,2)] by blast
  then have fB: "finite ?B" using finite_grid by (rule finite_subset)
  have "{c \<in> A. alive_neighbours W H A c = 2 \<or> alive_neighbours W H A c = 3}
        \<union> {c \<in> ?B. alive_neighbours W H A c = 3} = dense_step W H A" (is "?L = ?R")
  proof (rule set_eqI)
    fix c
    show "c \<in> ?L \<longleftrightarrow> c \<in> ?R"
    proof (cases "c \<in> grid W H \<and> c \<notin> A \<and> c \<notin> ?B")
      case True
      then have "alive_neighbours W H A c = 0"
        using no_neighbours_outside_boundary [OF assms(1,2), of c A] by blast
      with True show ?thesis by (simp add: dense_step_def)
    next
      case False
      with assms(3) sub show ?thesis unfolding dense_step_def by blast
    qed
  qed
  then show ?thesis by (simp add: evolution_pos [OF assms(1,2) fA fB])
qed

subsection \<open>Counting through the neighbourhoods of the living cells\<close>

lemma alive_neighbours_sym:
  assumes "0 < W" "0 < H" "A \<subseteq> grid W H" "c \<in> grid W H"
  shows "alive_neighbours W H A c = card {a \<in> A. c \<in> toroidal_neighbours W H a}"
proof -
  have "toroidal_neighbours W H c \<inter> A = {a \<in> A. c \<in> toroidal_neighbours W H a}"
    using neighbour_sym [OF assms(1,2)] assms(3,4) by blast
  then show ?thesis by (simp add: alive_neighbours_def)
qed

lemma Collect_insert_if:
  "{a \<in> insert x S. P a} = (if P x then insert x {a \<in> S. P a} else {a \<in> S. P a})"
  by auto

lemma alive_neighbours_three:
  assumes "0 < W" "0 < H" "{a1, a2, a3} \<subseteq> grid W H" "c \<in> grid W H"
    and "a1 \<noteq> a2" "a1 \<noteq> a3" "a2 \<noteq> a3"
  shows "alive_neighbours W H {a1, a2, a3} c
         = (if c \<in> toroidal_neighbours W H a1 then 1 else 0)
         + (if c \<in> toroidal_neighbours W H a2 then 1 else 0)
         + (if c \<in> toroidal_neighbours W H a3 then 1 else 0)"
proof -
  have "{a \<in> {a1, a2, a3}. c \<in> toroidal_neighbours W H a}
        = (if c \<in> toroidal_neighbours W H a1 then {a1} else {})
        \<union> (if c \<in> toroidal_neighbours W H a2 then {a2} else {})
        \<union> (if c \<in> toroidal_neighbours W H a3 then {a3} else {})"
    by auto
  then show ?thesis
    using assms(5-7) by (simp add: alive_neighbours_sym [OF assms(1-4)])
qed

subsection \<open>The blinker\<close>

text \<open>
  The neighbourhoods of the cells of the horizontal and of the vertical triplet on a grid
  of at least 7 by 7 cells. Column 7 and row 7 wrap to 0 on a grid of width or height 7.
\<close>

lemma tn_4_5:
  assumes "7 \<le> W" "7 \<le> H"
  shows "toroidal_neighbours W H (4, 5)
         = {(3, 6), (4, 6), (5, 6), (5, 5), (5, 4), (4, 4), (3, 4), (3, 5)}"
  using assms by (simp add: toroidal_neighbours_def moore_offsets_eq)

lemma tn_5_5:
  assumes "7 \<le> W" "7 \<le> H"
  shows "toroidal_neighbours W H (5, 5)
         = {(4, 6), (5, 6), (6, 6), (6, 5), (6, 4), (5, 4), (4, 4), (4, 5)}"
  using assms by (simp add: toroidal_neighbours_def moore_offsets_eq)

lemma tn_6_5:
  assumes "7 \<le> W" "7 \<le> H"
  shows "toroidal_neighbours W H (6, 5)
         = {(5, 6), (6, 6), (7 mod W, 6), (7 mod W, 5), (7 mod W, 4), (6, 4), (5, 4), (5, 5)}"
  using assms by (simp add: toroidal_neighbours_def moore_offsets_eq)

lemma tn_5_4:
  assumes "7 \<le> W" "7 \<le> H"
  shows "toroidal_neighbours W H (5, 4)
         = {(4, 5), (5, 5), (6, 5), (6, 4), (6, 3), (5, 3), (4, 3), (4, 4)}"
  using assms by (simp add: toroidal_neighbours_def moore_offsets_eq)

lemma tn_5_6:
  assumes "7 \<le> W" "7 \<le> H"
  shows "toroidal_neighbours W H (5, 6)
         = {(4, 7 mod H), (5, 7 mod H), (6, 7 mod H), (6, 6), (6, 5), (5, 5), (4, 5), (4, 6)}"
  using assms by (simp add: toroidal_neighbours_def moore_offsets_eq)

lemma wrap_seven:
  fixes W :: int
  assumes "7 \<le> W"
  shows "(7 mod W = 0 \<or> 7 mod W = 7) \<and> 7 mod W < W"
proof (cases "W = 7")
  case True
  then show ?thesis by simp
next
  case False
  with assms have "7 < W" by simp
  then show ?thesis by simp
qed

lemma hor_boundary:
  assumes "7 \<le> W" "7 \<le> H" "s = 0 \<or> s = 7" "s = 7 mod W"
  shows "(\<Union>a\<in>{(4, 5), (5, 5), (6, 5)}. toroidal_neighbours W H a) - {(4, 5), (5, 5), (6, 5)}
         = {(3, 6), (4, 6), (5, 6), (6, 6), (s, 6), (s, 5), (s, 4),
            (6, 4), (5, 4), (4, 4), (3, 4), (3, 5)}"
proof -
  note t = tn_4_5 [OF assms(1,2)] tn_5_5 [OF assms(1,2)] tn_6_5 [OF assms(1,2), folded assms(4)]
  from assms(3) show ?thesis by (auto simp add: t)
qed

lemma ver_boundary:
  assumes "7 \<le> W" "7 \<le> H" "s = 0 \<or> s = 7" "s = 7 mod H"
  shows "(\<Union>a\<in>{(5, 4), (5, 5), (5, 6)}. toroidal_neighbours W H a) - {(5, 4), (5, 5), (5, 6)}
         = {(4, 3), (5, 3), (6, 3), (4, 4), (6, 4), (4, 5), (6, 5),
            (4, 6), (6, 6), (4, s), (5, s), (6, s)}"
proof -
  note t = tn_5_4 [OF assms(1,2)] tn_5_5 [OF assms(1,2)] tn_5_6 [OF assms(1,2), folded assms(4)]
  from assms(3) show ?thesis by (auto simp add: t)
qed

lemma hor_step_rule:
  assumes "7 \<le> W" "7 \<le> H" "s = 0 \<or> s = 7" "s = 7 mod W" "s < W"
  shows "{c \<in> {(4, 5), (5, 5), (6, 5)}.
            alive_neighbours W H {(4, 5), (5, 5), (6, 5)} c = 2 \<or>
            alive_neighbours W H {(4, 5), (5, 5), (6, 5)} c = 3}
         \<union> {c \<in> {(3, 6), (4, 6), (5, 6), (6, 6), (s, 6), (s, 5), (s, 4),
                    (6, 4), (5, 4), (4, 4), (3, 4), (3, 5)}.
            alive_neighbours W H {(4, 5), (5, 5), (6, 5)} c = 3}
         = {(5, 4), (5, 5), (5, 6)}"
proof -
  have p: "0 < W" "0 < H" using assms by simp_all
  have g: "{(4, 5), (5, 5), (6, 5)} \<subseteq> grid W H" using assms by (simp add: grid_def)
  have n: "alive_neighbours W H {(4, 5), (5, 5), (6, 5)} (x, y)
         = (if (x, y) \<in> toroidal_neighbours W H (4, 5) then 1 else 0)
         + (if (x, y) \<in> toroidal_neighbours W H (5, 5) then 1 else 0)
         + (if (x, y) \<in> toroidal_neighbours W H (6, 5) then 1 else 0)"
    if "0 \<le> x" "x < W" "0 \<le> y" "y < H" for x y
    using that by (intro alive_neighbours_three [OF p g]) (simp_all add: grid_def)
  note t = tn_4_5 [OF assms(1,2)] tn_5_5 [OF assms(1,2)] tn_6_5 [OF assms(1,2), folded assms(4)]
  from assms(3) show ?thesis
  proof
    assume "s = 0"
    then show ?thesis using assms(1,2)
      unfolding Collect_insert_if by (simp add: n t; blast)
  next
    assume "s = 7"
    then show ?thesis using assms(1,2,5)
      unfolding Collect_insert_if by (simp add: n t; blast)
  qed
qed

lemma ver_step_rule:
  assumes "7 \<le> W" "7 \<le> H" "s = 0 \<or> s = 7" "s = 7 mod H" "s < H"
  shows "{c \<in> {(5, 4), (5, 5), (5, 6)}.
            alive_neighbours W H {(5, 4), (5, 5), (5, 6)} c = 2 \<or>
            alive_neighbours W H {(5, 4), (5, 5), (5, 6)} c = 3}
         \<union> {c \<in> {(4, 3), (5, 3), (6, 3), (4, 4), (6, 4), (4, 5), (6, 5),
                    (4, 6), (6, 6), (4, s), (5, s), (6, s)}.
            alive_neighbours W H {(5, 4), (5, 5), (5, 6)} c = 3}
         = {(4, 5), (5, 5), (6, 5)}"
proof -
  have p: "0 < W" "0 < H" using assms by simp_all
  have g: "{(5, 4), (5, 5), (5, 6)} \<subseteq> grid W H" using assms by (simp add: grid_def)
  have n: "alive_neighbours W H {(5, 4), (5, 5), (5, 6)} (x, y)
         = (if (x, y) \<in> toroidal_neighbours W H (5, 4) then 1 else 0)
         + (if (x, y) \<in> toroidal_neighbours W H (5, 5) then 1 else 0)
         + (if (x, y) \<in> toroidal_neighbours W H (5, 6) then 1 else 0)"
    if "0 \<le> x" "x < W" "0 \<le> y" "y < H" for x y
    using that by (intro alive_neighbours_three [OF p g]) (simp_all add: grid_def)
  note t = tn_5_4 [OF assms(1,2)] tn_5_5 [OF assms(1,2)] tn_5_6 [OF assms(1,2), folded assms(4)]
  from assms(3) show ?thesis
  proof
    assume "s = 0"
    then show ?thesis using assms(1,2)
      unfolding Collect_insert_if by (simp add: n t; blast)
  next
    assume "s = 7"
    then show ?thesis using assms(1,2,5)
      unfolding Collect_insert_if by (simp add: n t; blast)
  qed
qed

section \<open>Properties of the engine\<close>

subsection \<open>Toroidal mapping\<close>

text \<open>
  Claim C3. For all integers \<open>x\<close> and \<open>y\<close>, negative or beyond the grid dimension
  included, and all positive \<open>W\<close> and \<open>H\<close>, \<^verbatim>\<open>PBC\<close> returns the pair
  \<open>(x mod W, y mod H)\<close> under the mathematical modulo: the result lies in
  \<open>[0, W) \<times> [0, H)\<close>, each component is congruent to the input component modulo the
  dimension, and the component \<open>-1\<close> is sent to \<open>W - 1\<close>, respectively \<open>H - 1\<close>.
\<close>

theorem PBC_true_modulo:
  assumes "0 < W" "0 < H"
  shows "PBC W H x y = Some (x mod W, y mod H) \<and>
         (x mod W, y mod H) \<in> grid W H \<and>
         W dvd (x mod W - x) \<and> H dvd (y mod H - y) \<and>
         PBC W H (- 1) y = Some (W - 1, y mod H) \<and>
         PBC W H x (- 1) = Some (x mod W, H - 1)"
proof -
  have m: "(- 1) mod W = W - 1" "(- 1) mod H = H - 1"
    using assms by (simp_all add: zmod_minus1)
  have "W dvd (x mod W - x)" "H dvd (y mod H - y)"
    by (simp_all add: mod_eq_dvd_iff [symmetric])
  then show ?thesis using assms by (simp add: PBC_pos m grid_def)
qed

theorem PBC_true_modulo_witness:
  "(0::int) < 100 \<and> PBC 100 100 (- 1) 250 = Some (99, 50) \<and> (99, 50) \<in> grid 100 100 \<and>
   (100::int) dvd (99 - (- 1)) \<and> (100::int) dvd (50 - 250)"
  using PBC_true_modulo [of 100 100 "- 1" 250] by simp

subsection \<open>Contour\<close>

text \<open>
  Claim C4. For every cell \<open>c\<close>, \<^verbatim>\<open>contour(c)\<close> is the set of the toroidal
  normalisations of the eight Moore offsets of \<open>c\<close>, and it has exactly eight distinct
  members when \<open>W \<ge> 3\<close> and \<open>H \<ge> 3\<close>.
\<close>

theorem contour_moore_neighbourhood:
  assumes "0 < W" "0 < H"
  shows "contour W H c = Some (toroidal_neighbours W H c) \<and>
         (\<lambda>d. PBC W H (fst c + fst d) (snd c + snd d)) ` moore_offsets
           = Some ` toroidal_neighbours W H c \<and>
         (3 \<le> W \<and> 3 \<le> H \<longrightarrow> card (toroidal_neighbours W H c) = 8)"
proof -
  have "(\<lambda>d. PBC W H (fst c + fst d) (snd c + snd d)) ` moore_offsets
          = Some ` toroidal_neighbours W H c"
    by (simp add: PBC_pos assms toroidal_neighbours_def image_image)
  then show ?thesis
    using contour_pos [OF assms] card_toroidal_neighbours_eq [of W H c] by blast
qed

theorem contour_moore_neighbourhood_witness:
  "(0::int) < 100 \<and> contour 100 100 (0, 0) = Some (toroidal_neighbours 100 100 (0, 0)) \<and>
   card (toroidal_neighbours 100 100 (0, 0)) = 8 \<and>
   toroidal_neighbours 100 100 (0, 0)
     = {(99, 1), (0, 1), (1, 1), (1, 0), (1, 99), (0, 99), (99, 99), (99, 0)}"
  using contour_moore_neighbourhood [of 100 100 "(0, 0)"]
  by (simp add: toroidal_neighbours_def moore_offsets_eq)

text \<open>
  On a grid one cell wide and one cell high every offset wraps back to the cell, so the
  contour of the only cell is that cell.
\<close>

theorem contour_self_counterexample: "contour 1 1 (0, 0) = Some {(0, 0)}"
  by (simp add: contour_def PBC_def py_mod_def)

text \<open>
  Claim C5, as amended. For every cell \<open>c\<close> and all \<open>W \<ge> 1\<close> and \<open>H \<ge> 1\<close>,
  \<^verbatim>\<open>contour(c)\<close> has between 0 and 8 distinct members, all of them in
  \<open>[0, W) \<times> [0, H)\<close>; it contains \<open>c\<close> itself exactly when \<open>c\<close> lies in the grid and
  \<open>W = 1\<close> or \<open>H = 1\<close>, hence never when \<open>W \<ge> 2\<close> and \<open>H \<ge> 2\<close>.
\<close>

theorem contour_bounds:
  assumes "1 \<le> W" "1 \<le> H"
  shows "\<exists>k. contour W H c = Some k \<and> card k \<le> 8 \<and> k \<subseteq> grid W H \<and>
             (c \<in> k \<longleftrightarrow> c \<in> grid W H \<and> (W = 1 \<or> H = 1))"
proof -
  from assms have p: "0 < W" "0 < H" by simp_all
  show ?thesis
    using contour_pos [OF p] card_toroidal_neighbours_le toroidal_neighbours_grid [OF p]
      self_neighbour_iff [OF p]
    by blast
qed

theorem contour_bounds_witness:
  "(1::int) \<le> 2 \<and> contour 2 2 (0, 0) = Some {(1, 1), (0, 1), (1, 0)} \<and>
   card {(1::int, 1::int), (0, 1), (1, 0)} \<le> 8 \<and> {(1, 1), (0, 1), (1, 0)} \<subseteq> grid 2 2 \<and>
   (0, 0) \<notin> {(1::int, 1::int), (0, 1), (1, 0)}"
proof -
  have k: "contour 2 2 (0, 0) = Some {(1, 1), (0, 1), (1, 0)}"
    by (auto simp add: contour_pos toroidal_neighbours_def moore_offsets_eq)
  from contour_bounds [of 2 2 "(0, 0)"] show ?thesis
    unfolding k by simp
qed

subsection \<open>Alive-neighbour count\<close>

text \<open>
  Claim C9. For every cell \<open>c\<close> and every alive set \<open>A\<close>, \<^verbatim>\<open>contour_alive_sum(c, A)\<close>
  is the number of members of \<^verbatim>\<open>contour(c)\<close> that are in \<open>A\<close>, and it lies between 0
  and 8.
\<close>

theorem contour_alive_sum_card:
  assumes "0 < W" "0 < H"
  shows "\<exists>k n. contour W H c = Some k \<and> contour_alive_sum W H c A = Some n \<and>
               n = int (card (k \<inter> A)) \<and> 0 \<le> n \<and> n \<le> 8"
proof -
  have "card (toroidal_neighbours W H c \<inter> A) \<le> card (toroidal_neighbours W H c)"
    by (rule card_mono) (simp_all add: finite_toroidal_neighbours)
  then have "card (toroidal_neighbours W H c \<inter> A) \<le> 8"
    using card_toroidal_neighbours_le [of W H c] by simp
  then show ?thesis
    by (simp add: contour_pos assms contour_alive_sum_pos alive_neighbours_def)
qed

theorem contour_alive_sum_card_witness:
  "(0::int) < 20 \<and> contour_alive_sum 20 20 (5, 5) {(4, 5), (6, 5), (0, 0)} = Some 2"
proof -
  have k: "contour 20 20 (5, 5) = Some {(4, 6), (5, 6), (6, 6), (6, 5), (6, 4), (5, 4), (4, 4), (4, 5)}"
    by (simp add: contour_pos toroidal_neighbours_def moore_offsets_eq)
  from contour_alive_sum_card [of 20 20 "(5, 5)" "{(4, 5), (6, 5), (0, 0)}"] show ?thesis
    unfolding k by simp
qed

subsection \<open>Boundary\<close>

text \<open>
  Claim C2. For every set \<open>A\<close> of cells, \<^verbatim>\<open>boundary(A)\<close> is exactly the set of the
  cells that are not in \<open>A\<close> and are a toroidal neighbour of at least one cell of \<open>A\<close>.
  Hence it is disjoint from \<open>A\<close>, the boundary of the empty set is empty, and the
  boundary of the full grid is empty.
\<close>

theorem boundary_exact:
  assumes "0 < W" "0 < H" "finite A"
  shows "(\<exists>B. boundary W H A = Some B \<and>
              B = {c. c \<notin> A \<and> (\<exists>a\<in>A. c \<in> toroidal_neighbours W H a)} \<and> B \<inter> A = {}) \<and>
         boundary W H {} = Some {} \<and>
         boundary W H (grid W H) = Some {}"
proof -
  have "(\<Union>a\<in>A. toroidal_neighbours W H a) - A
        = {c. c \<notin> A \<and> (\<exists>a\<in>A. c \<in> toroidal_neighbours W H a)}"
    by blast
  then have 1: "\<exists>B. boundary W H A = Some B \<and>
      B = {c. c \<notin> A \<and> (\<exists>a\<in>A. c \<in> toroidal_neighbours W H a)} \<and> B \<inter> A = {}"
    using boundary_pos [OF assms] by auto
  have 2: "boundary W H {} = Some {}"
    by (simp add: boundary_def)
  have "(\<Union>a\<in>grid W H. toroidal_neighbours W H a) - grid W H = {}"
    using toroidal_neighbours_grid [OF assms(1,2)] by blast
  then have 3: "boundary W H (grid W H) = Some {}"
    by (simp add: boundary_pos [OF assms(1,2) finite_grid])
  from 1 2 3 show ?thesis by simp
qed

theorem boundary_exact_witness:
  "(0::int) < 20 \<and> finite {(5::int, 5::int), (5, 6)} \<and>
   boundary 20 20 {(5, 5), (5, 6)}
     = Some {(4, 4), (5, 4), (6, 4), (4, 5), (6, 5), (4, 6), (6, 6), (4, 7), (5, 7), (6, 7)} \<and>
   boundary 20 20 (grid 20 20) = Some {}"
proof -
  have "{c. c \<notin> {(5, 5), (5, 6)} \<and> (\<exists>a\<in>{(5, 5), (5, 6)}. c \<in> toroidal_neighbours 20 20 a)}
        = {(4, 4), (5, 4), (6, 4), (4, 5), (6, 5), (4, 6), (6, 6), (4, 7), (5, 7), (6, 7)}"
    by (auto simp add: toroidal_neighbours_def moore_offsets_eq)
  with boundary_exact [of 20 20 "{(5, 5), (5, 6)}"] show ?thesis by simp
qed

text \<open>
  Claim C10. For every set \<open>A\<close>, also one with cells outside \<open>[0, W) \<times> [0, H)\<close>, every
  cell of \<^verbatim>\<open>boundary(A)\<close> lies in \<open>[0, W) \<times> [0, H)\<close>: each candidate went through the
  toroidal mapping, whether or not the alive set is normalised.
\<close>

theorem boundary_normalised:
  assumes "0 < W" "0 < H" "finite A"
  shows "\<exists>B. boundary W H A = Some B \<and> B \<subseteq> grid W H"
proof -
  have "(\<Union>a\<in>A. toroidal_neighbours W H a) - A \<subseteq> grid W H"
    using toroidal_neighbours_grid [OF assms(1,2)] by blast
  then show ?thesis by (simp add: boundary_pos [OF assms])
qed

theorem boundary_normalised_witness:
  "(0::int) < 100 \<and> finite {(- 5::int, 200::int)} \<and> (- 5, 200) \<notin> grid 100 100 \<and>
   (\<exists>B. boundary 100 100 {(- 5, 200)} = Some B \<and> B \<subseteq> grid 100 100)"
  using boundary_normalised [of 100 100 "{(- 5, 200)}"] by (simp add: grid_def)

subsection \<open>Evolution\<close>

text \<open>
  Claim C8. For all sets \<open>A\<close> and \<open>B\<close>, also a \<open>B\<close> that is not the boundary of \<open>A\<close>,
  \<^verbatim>\<open>evolution(A, B)\<close> is a subset of \<open>A \<union> B\<close>: no cell outside both sets appears in the
  next generation, and a member of the result is the very coordinate pair it was in
  \<open>A\<close> or \<open>B\<close>, not a renormalised one. In particular the evolution of the empty sets is
  empty.
\<close>

theorem evolution_subset:
  assumes "0 < W" "0 < H" "finite A" "finite B"
  shows "(\<exists>N. evolution W H A B = Some N \<and> N \<subseteq> A \<union> B) \<and> evolution W H {} {} = Some {}"
proof -
  have "{c \<in> A. alive_neighbours W H A c = 2 \<or> alive_neighbours W H A c = 3}
        \<union> {c \<in> B. alive_neighbours W H A c = 3} \<subseteq> A \<union> B"
    by blast
  moreover have "evolution W H {} {} = Some {}"
    by (simp add: evolution_def)
  ultimately show ?thesis by (simp add: evolution_pos [OF assms])
qed

theorem evolution_subset_witness:
  "(0::int) < 100 \<and> finite {(100::int, 0::int), (1, 0), (0, 1)} \<and> finite {(7::int, 7::int)} \<and>
   evolution 100 100 {(100, 0), (1, 0), (0, 1)} {(7, 7)} = Some {(100, 0)} \<and>
   {(100, 0)} \<subseteq> {(100::int, 0::int), (1, 0), (0, 1)} \<union> {(7, 7)} \<and>
   evolution 100 100 {} {} = Some {}"
proof -
  have p: "(0::int) < 100" by simp
  have f: "finite {(100::int, 0::int), (1, 0), (0, 1)}" "finite {(7::int, 7::int)}" by simp_all
  have "evolution 100 100 {(100, 0), (1, 0), (0, 1)} {(7, 7)} = Some {(100, 0)}"
    unfolding evolution_pos [OF p p f] Collect_insert_if
    by (simp add: alive_neighbours_def toroidal_neighbours_def moore_offsets_eq)
  with evolution_subset [OF p p f] show ?thesis by simp
qed

text \<open>
  Claim C1. For every alive set \<open>A\<close> inside \<open>[0, W) \<times> [0, H)\<close>, the sparse step
  \<^verbatim>\<open>evolution(A, boundary(A))\<close> equals the dense reference step, the rule of the game
  evaluated at every cell of the grid: a cell is in the result iff it is in \<open>A\<close> with
  2 or 3 living neighbours, or not in \<open>A\<close> with exactly 3 living neighbours. Every dead
  cell of the grid outside \<^verbatim>\<open>boundary(A)\<close> has no living neighbour.
\<close>

theorem evolution_refines_dense_step:
  assumes "0 < W" "0 < H" "A \<subseteq> grid W H"
  shows "\<exists>B. boundary W H A = Some B \<and> evolution W H A B = Some (dense_step W H A) \<and>
             (\<forall>c. c \<in> grid W H \<and> c \<notin> A \<and> c \<notin> B \<longrightarrow> contour_alive_sum W H c A = Some 0)"
proof -
  let ?B = "(\<Union>a\<in>A. toroidal_neighbours W H a) - A"
  have fA: "finite A" using assms(3) finite_grid by (rule finite_subset)
  have b: "boundary W H A = Some ?B" by (rule boundary_pos [OF assms(1,2) fA])
  have e: "evolution W H A ?B = Some (dense_step W H A)"
    by (rule evolution_boundary_dense [OF assms])
  have z: "contour_alive_sum W H c A = Some 0"
    if "c \<in> grid W H \<and> c \<notin> A \<and> c \<notin> ?B" for c
  proof -
    from that have "c \<in> grid W H" "c \<notin> (\<Union>a\<in>A. toroidal_neighbours W H a)" by blast+
    then have "alive_neighbours W H A c = 0"
      by (rule no_neighbours_outside_boundary [OF assms(1,2)])
    then show ?thesis by (simp add: contour_alive_sum_pos [OF assms(1,2)])
  qed
  from b e z show ?thesis by blast
qed

theorem evolution_refines_dense_step_witness:
  "(0::int) < 20 \<and> {(5, 5), (5, 6), (6, 5), (6, 6)} \<subseteq> grid 20 20 \<and>
   (\<exists>B. boundary 20 20 {(5, 5), (5, 6), (6, 5), (6, 6)} = Some B \<and>
        evolution 20 20 {(5, 5), (5, 6), (6, 5), (6, 6)} B
          = Some (dense_step 20 20 {(5, 5), (5, 6), (6, 5), (6, 6)}) \<and>
        contour_alive_sum 20 20 (0, 0) {(5, 5), (5, 6), (6, 5), (6, 6)} = Some 0)"
proof -
  let ?A = "{(5::int, 5::int), (5, 6), (6, 5), (6, 6)}"
  have g: "?A \<subseteq> grid 20 20" by (simp add: grid_def)
  have fA: "finite ?A" by simp
  have p: "(0::int) < 20" by simp
  from evolution_refines_dense_step [OF p p g]
  obtain B where B: "boundary 20 20 ?A = Some B"
    "evolution 20 20 ?A B = Some (dense_step 20 20 ?A)"
    "\<forall>c. c \<in> grid 20 20 \<and> c \<notin> ?A \<and> c \<notin> B \<longrightarrow> contour_alive_sum 20 20 c ?A = Some 0"
    by blast
  have "B = (\<Union>a\<in>?A. toroidal_neighbours 20 20 a) - ?A"
    using B(1) by (simp only: boundary_pos [OF p p fA] option.inject)
  then have "(0, 0) \<notin> B"
    by (simp add: toroidal_neighbours_def moore_offsets_eq)
  moreover have "(0, 0) \<in> grid 20 20" "(0, 0) \<notin> ?A" by (simp_all add: grid_def)
  ultimately have "contour_alive_sum 20 20 (0, 0) ?A = Some 0" using B(3) by blast
  with p g B(1,2) show ?thesis by blast
qed

subsection \<open>The simulation tick\<close>

text \<open>
  Claim C6. Containment in the grid is preserved by every tick: if \<open>A\<close> lies inside
  \<open>[0, W) \<times> [0, H)\<close>, so do the next alive set \<^verbatim>\<open>evolution(A, boundary(A))\<close> and the
  boundary recomputed from it.
\<close>

theorem containment_preserved:
  assumes "0 < W" "0 < H" "A \<subseteq> grid W H"
  shows "\<exists>B A' B'. boundary W H A = Some B \<and> evolution W H A B = Some A' \<and>
           boundary W H A' = Some B' \<and> tick W H (A, B) = Some (A', B') \<and>
           A' \<subseteq> grid W H \<and> B' \<subseteq> grid W H"
proof -
  let ?B = "(\<Union>a\<in>A. toroidal_neighbours W H a) - A"
  let ?A' = "dense_step W H A"
  let ?B' = "(\<Union>a\<in>?A'. toroidal_neighbours W H a) - ?A'"
  have fA: "finite A" using assms(3) finite_grid by (rule finite_subset)
  have sA': "?A' \<subseteq> grid W H" by (auto simp: dense_step_def)
  then have fA': "finite ?A'" using finite_grid by (rule finite_subset)
  have sB': "?B' \<subseteq> grid W H" using toroidal_neighbours_grid [OF assms(1,2)] by blast
  have b: "boundary W H A = Some ?B" by (rule boundary_pos [OF assms(1,2) fA])
  have e: "evolution W H A ?B = Some ?A'" by (rule evolution_boundary_dense [OF assms])
  have b': "boundary W H ?A' = Some ?B'" by (rule boundary_pos [OF assms(1,2) fA'])
  have t: "tick W H (A, ?B) = Some (?A', ?B')" by (simp add: tick_def e b')
  from b e b' t sA' sB' show ?thesis by blast
qed

theorem containment_preserved_witness:
  "(0::int) < 20 \<and> {(5, 5), (5, 6), (6, 5)} \<subseteq> grid 20 20 \<and>
   (\<exists>B A' B'. boundary 20 20 {(5, 5), (5, 6), (6, 5)} = Some B \<and>
      evolution 20 20 {(5, 5), (5, 6), (6, 5)} B = Some A' \<and>
      boundary 20 20 A' = Some B' \<and> tick 20 20 ({(5, 5), (5, 6), (6, 5)}, B) = Some (A', B') \<and>
      A' \<subseteq> grid 20 20 \<and> B' \<subseteq> grid 20 20)"
  using containment_preserved [of 20 20 "{(5, 5), (5, 6), (6, 5)}"] by (simp add: grid_def)

text \<open>
  Claim C7. On a grid with \<open>W \<ge> 7\<close> and \<open>H \<ge> 7\<close>, one evolution step takes the horizontal
  blinker \<open>{(4,5), (5,5), (6,5)}\<close> with its computed boundary to the vertical triplet
  \<open>{(5,4), (5,5), (5,6)}\<close>, and a second step, with the recomputed boundary, takes it
  back to the horizontal triplet.
\<close>

theorem blinker_period_two:
  assumes "7 \<le> W" "7 \<le> H"
  shows "\<exists>B0 B1.
           boundary W H {(4, 5), (5, 5), (6, 5)} = Some B0 \<and>
           evolution W H {(4, 5), (5, 5), (6, 5)} B0 = Some {(5, 4), (5, 5), (5, 6)} \<and>
           boundary W H {(5, 4), (5, 5), (5, 6)} = Some B1 \<and>
           evolution W H {(5, 4), (5, 5), (5, 6)} B1 = Some {(4, 5), (5, 5), (6, 5)} \<and>
           tick W H ({(4, 5), (5, 5), (6, 5)}, B0) = Some ({(5, 4), (5, 5), (5, 6)}, B1) \<and>
           tick W H ({(5, 4), (5, 5), (5, 6)}, B1) = Some ({(4, 5), (5, 5), (6, 5)}, B0)"
proof -
  let ?hor = "{(4::int, 5::int), (5, 5), (6, 5)}"
  let ?ver = "{(5::int, 4::int), (5, 5), (5, 6)}"
  let ?B0 = "{(3, 6), (4, 6), (5, 6), (6, 6), (7 mod W, 6), (7 mod W, 5), (7 mod W, 4),
            (6, 4), (5, 4), (4, 4), (3, 4), (3::int, 5::int)}"
  let ?B1 = "{(4, 3), (5, 3), (6, 3), (4, 4), (6, 4), (4, 5), (6, 5),
            (4, 6), (6, 6), (4, 7 mod H), (5, 7 mod H), (6::int, 7 mod H)}"
  have p: "0 < W" "0 < H" using assms by simp_all
  have f: "finite ?hor" "finite ?ver" "finite ?B0" "finite ?B1" by simp_all
  have sw: "7 mod W = 0 \<or> 7 mod W = 7" "7 mod W < W"
    and sh: "7 mod H = 0 \<or> 7 mod H = 7" "7 mod H < H"
    using wrap_seven [OF assms(1)] wrap_seven [OF assms(2)] by simp_all
  have b0: "boundary W H ?hor = Some ?B0"
    by (simp only: boundary_pos [OF p f(1)] hor_boundary [OF assms sw(1) refl])
  have b1: "boundary W H ?ver = Some ?B1"
    by (simp only: boundary_pos [OF p f(2)] ver_boundary [OF assms sh(1) refl])
  have e0: "evolution W H ?hor ?B0 = Some ?ver"
    by (simp only: evolution_pos [OF p f(1,3)] hor_step_rule [OF assms sw(1) refl sw(2)])
  have e1: "evolution W H ?ver ?B1 = Some ?hor"
    by (simp only: evolution_pos [OF p f(2,4)] ver_step_rule [OF assms sh(1) refl sh(2)])
  have t0: "tick W H (?hor, ?B0) = Some (?ver, ?B1)" by (simp add: tick_def e0 b1)
  have t1: "tick W H (?ver, ?B1) = Some (?hor, ?B0)" by (simp add: tick_def e1 b0)
  from b0 e0 b1 e1 t0 t1 show ?thesis by blast
qed

theorem blinker_period_two_witness:
  "(7::int) \<le> 7 \<and>
   (\<exists>B0 B1.
      boundary 7 7 {(4, 5), (5, 5), (6, 5)} = Some B0 \<and>
      evolution 7 7 {(4, 5), (5, 5), (6, 5)} B0 = Some {(5, 4), (5, 5), (5, 6)} \<and>
      boundary 7 7 {(5, 4), (5, 5), (5, 6)} = Some B1 \<and>
      evolution 7 7 {(5, 4), (5, 5), (5, 6)} B1 = Some {(4, 5), (5, 5), (6, 5)} \<and>
      tick 7 7 ({(4, 5), (5, 5), (6, 5)}, B0) = Some ({(5, 4), (5, 5), (5, 6)}, B1) \<and>
      tick 7 7 ({(5, 4), (5, 5), (5, 6)}, B1) = Some ({(4, 5), (5, 5), (6, 5)}, B0))"
  using blinker_period_two [of 7 7] by simp

end
